theory Spec2Isabelle
  imports Main
begin

section \<open>Python values, exceptions and string primitives\<close>

text \<open>
  The module \<^verbatim>\<open>discogstagger/discogsalbum.py\<close> is Python 2. Every exception the
  module can raise is a value of \<open>py_error\<close>; a computation that may raise has the
  type \<open>py_error + 'a\<close>, with \<open>Inl\<close> for the exception.
\<close>

datatype py_error = IndexError | KeyError | ValueError | AttributeError | NameError

definition is_space :: "char \<Rightarrow> bool" where
  \<comment> \<open>the class \<^verbatim>\<open>\s\<close> of a byte-string pattern: space, tab, LF, VT, FF, CR\<close>
  "is_space c \<longleftrightarrow> c \<in> set [CHR '' '', CHR 0x09, CHR 0x0A, CHR 0x0B, CHR 0x0C, CHR 0x0D]"

definition is_digit :: "char \<Rightarrow> bool" where
  \<comment> \<open>the class \<^verbatim>\<open>\d\<close> of a byte-string pattern\<close>
  "is_digit c \<longleftrightarrow> c \<in> set ''0123456789''"

definition digit_val :: "char \<Rightarrow> int" where
  "digit_val c = int (of_char c) - 48"

definition strip :: "string \<Rightarrow> string" where
  "strip s = rev (dropWhile is_space (rev (dropWhile is_space s)))"

definition py_int :: "string \<Rightarrow> py_error + int" where
  \<comment> \<open>\<^verbatim>\<open>int(s)\<close> on a string: surrounding whitespace is dropped, one optional sign,
      then one or more decimal digits; anything else raises ValueError\<close>
  "py_int s =
     (let b = strip s;
          (sg, ds) = (case b of
                        [] \<Rightarrow> (1, b)
                      | c # r \<Rightarrow> if c = CHR ''-'' then (- 1, r)
                                 else if c = CHR ''+'' then (1, r) else (1, b))
      in if ds \<noteq> [] \<and> list_all is_digit ds
         then Inr (sg * foldl (\<lambda>a c. 10 * a + digit_val c) 0 ds)
         else Inl ValueError)"

fun find_str :: "string \<Rightarrow> char \<Rightarrow> int" where
  \<comment> \<open>\<^verbatim>\<open>s.find(c)\<close>: the index of the first occurrence, or -1\<close>
  "find_str [] c = - 1"
| "find_str (x # xs) c =
     (if x = c then 0 else (let r = find_str xs c in if r = - 1 then - 1 else r + 1))"

section \<open>The catalog snapshot\<close>

record artist_rec =
  name :: string

record format =
  qty :: string
  descriptions :: "string list option"  \<comment> \<open>None: the key is not in the dict\<close>

record track_entry =
  t_type :: string
  t_title :: string
  t_position :: string
  t_duration :: string
  t_artists :: "artist_rec list"

record release =
  tracklist :: "track_entry list"      \<comment> \<open>\<^verbatim>\<open>release.tracklist\<close>\<close>
  artists :: "artist_rec list"         \<comment> \<open>\<^verbatim>\<open>release.artists\<close>\<close>
  data_year :: "string option"         \<comment> \<open>\<^verbatim>\<open>str(release.data["year"])\<close>; None: no such key\<close>
  data_formats :: "format list"        \<comment> \<open>\<^verbatim>\<open>release.data["formats"]\<close>\<close>
  data_artists :: "artist_rec list"    \<comment> \<open>\<^verbatim>\<open>release.data["artists"]\<close>\<close>

record track =
  position :: nat
  tracknumber :: int
  discnumber :: int
  discsubtitle :: "string option"      \<comment> \<open>None: the attribute was never set\<close>
  sortartist :: string
  artist :: "string list"
  title :: string

text \<open>
  The object \<^verbatim>\<open>self\<close>: \<^verbatim>\<open>__init__\<close> sets \<^verbatim>\<open>self.release\<close> and nothing else, so the
  attribute \<^verbatim>\<open>discs\<close> may not exist (None) or hold a dict.
\<close>

record discogs_album =
  self_release :: release
  self_discs :: "(int \<rightharpoonup> int) option"

definition init :: "release \<Rightarrow> discogs_album" where
  "init r = \<lparr>self_release = r, self_discs = None\<rparr>"

section \<open>Name clean-up\<close>

fun match_dup :: "string \<Rightarrow> string option" where
  \<comment> \<open>the pattern \<^verbatim>\<open>\s\(\d+\)\<close> tried at the start of the string; on success, what follows
      the match. The digits are taken greedily; the closing parenthesis is no digit, so
      giving digits back never helps.\<close>
  "match_dup (w # p # rest) =
     (if is_space w \<and> p = CHR ''(''
      then (case dropWhile is_digit rest of
              [] \<Rightarrow> None
            | c # after \<Rightarrow> if takeWhile is_digit rest \<noteq> [] \<and> c = CHR '')''
                           then Some after else None)
      else None)"
| "match_dup _ = None"

function clean_duplicate_handling :: "string \<Rightarrow> string" where
  \<comment> \<open>\<^verbatim>\<open>re.sub("\s\(\d+\)", "", clean_target)\<close>: one pass from the left, every
      non-overlapping match removed\<close>
  "clean_duplicate_handling [] = []"
| "clean_duplicate_handling (c # cs) =
     (case match_dup (c # cs) of
        Some after \<Rightarrow> clean_duplicate_handling after
      | None \<Rightarrow> c # clean_duplicate_handling cs)"
  by pat_completeness auto
termination
proof (relation "measure length")
  show "wf (measure length)" by simp
next
  fix c :: char and cs after :: string
  assume "match_dup (c # cs) = Some after"
  then have "\<exists>p rest. cs = p # rest \<and> dropWhile is_digit rest = CHR '')'' # after"
    by (cases cs) (auto split: if_splits list.splits)
  then obtain p rest where r: "cs = p # rest" "dropWhile is_digit rest = CHR '')'' # after"
    by blast
  have "length (dropWhile is_digit rest) \<le> length rest"
    by (rule length_dropWhile_le)
  with r show "(after, c # cs) \<in> measure length" by simp
next
  fix c :: char and cs :: string
  show "(cs, c # cs) \<in> measure length" by simp
qed

definition the_tail :: "string \<Rightarrow> bool" where
  \<comment> \<open>\<^verbatim>\<open>,\sThe$\<close> from here: \<^verbatim>\<open>$\<close> is the end of the string or the last newline\<close>
  "the_tail r =
     (case r of
        c # w # r' \<Rightarrow> c = CHR '','' \<and> is_space w \<and> (r' = ''The'' \<or> r' = ''The'' @ [CHR 0x0A])
      | _ \<Rightarrow> False)"

fun dotstar_the :: "string \<Rightarrow> string option" where
  \<comment> \<open>\<^verbatim>\<open>(.*),\sThe$\<close> anchored here; \<^verbatim>\<open>.*\<close> is greedy and gives characters back;
      the result is group 1\<close>
  "dotstar_the [] = None"
| "dotstar_the (c # cs) =
     (case (if c \<noteq> CHR 0x0A then dotstar_the cs else None) of
        Some g \<Rightarrow> Some (c # g)
      | None \<Rightarrow> if the_tail (c # cs) then Some [] else None)"

fun re_search_the :: "string \<Rightarrow> string option" where
  \<comment> \<open>\<^verbatim>\<open>re.search("(.*),\sThe$", s)\<close>: the leftmost start that matches; group 1\<close>
  "re_search_the [] = None"
| "re_search_the (c # cs) =
     (case dotstar_the (c # cs) of Some g \<Rightarrow> Some g | None \<Rightarrow> re_search_the cs)"

definition clean_name :: "string \<Rightarrow> string" where
  "clean_name clean_target =
     (let clean_target = clean_duplicate_handling clean_target
      in case re_search_the clean_target of
           Some g \<Rightarrow> ''The'' @ '' '' @ g
         | None \<Rightarrow> clean_target)"

section \<open>Release-level properties\<close>

definition good_year_match :: "string \<Rightarrow> string option" where
  \<comment> \<open>\<^verbatim>\<open>re.compile("\d\d\d\d").match(s)\<close>: anchored at the start; None when it fails\<close>
  "good_year_match s =
     (if 4 \<le> length s \<and> list_all is_digit (take 4 s) then Some (take 4 s) else None)"

definition year :: "release \<Rightarrow> py_error + string" where
  \<comment> \<open>the \<^verbatim>\<open>try\<close> body raises KeyError on a missing key and AttributeError on
      \<^verbatim>\<open>None.group(0)\<close>; the handler catches IndexError only\<close>
  "year r =
     (let body = (case data_year r of
                    None \<Rightarrow> Inl KeyError
                  | Some y \<Rightarrow> (case good_year_match y of
                                None \<Rightarrow> Inl AttributeError
                              | Some m \<Rightarrow> Inr m))
      in case body of Inl IndexError \<Rightarrow> Inr ''1900'' | res \<Rightarrow> res)"

definition disctotal :: "release \<Rightarrow> py_error + int" where
  "disctotal r = (case data_formats r of [] \<Rightarrow> Inl IndexError | f # _ \<Rightarrow> py_int (qty f))"

definition gen_artist :: "artist_rec list \<Rightarrow> string list" where
  "gen_artist artist_data = map name artist_data"

definition sort_artist :: "artist_rec list \<Rightarrow> py_error + string" where
  "sort_artist artist_data =
     (case artist_data of [] \<Rightarrow> Inl IndexError | a # _ \<Rightarrow> Inr (clean_duplicate_handling (name a)))"

record disc_track =
  pos_tracknumber :: string
  pos_discnumber :: string

definition disc_and_track_no :: "string \<Rightarrow> disc_track" where
  "disc_and_track_no pos =
     (let idx = find_str pos (CHR ''-'');
          idx = (if idx = - 1 then find_str pos (CHR ''.'') else idx);
          idx = (if idx = - 1 then 0 else idx)
      in \<lparr>pos_tracknumber = drop (nat (idx + 1)) pos, pos_discnumber = take (nat idx) pos\<rparr>)"

definition tracktotal_on_disc :: "discogs_album \<Rightarrow> int \<Rightarrow> py_error + int" where
  "tracktotal_on_disc self dn =
     (case self_discs self of
        None \<Rightarrow> Inl AttributeError
      | Some d \<Rightarrow> (case d dn of None \<Rightarrow> Inl KeyError | Some n \<Rightarrow> Inr n))"

primrec descriptions_loop :: "string list \<Rightarrow> bool" where
  "descriptions_loop [] = False"
| "descriptions_loop (description # rest) =
     (if description = ''compilation'' then True else descriptions_loop rest)"

primrec formats_loop :: "format list \<Rightarrow> bool" where
  "formats_loop [] = False"
| "formats_loop (f # rest) =
     (case descriptions f of
        Some ds \<Rightarrow> if descriptions_loop ds then True else formats_loop rest
      | None \<Rightarrow> formats_loop rest)"

definition is_compilation :: "release \<Rightarrow> py_error + bool" where
  "is_compilation r =
     (case data_artists r of
        [] \<Rightarrow> Inl IndexError
      | a # _ \<Rightarrow> if name a = ''Various'' then Inr True else Inr (formats_loop (data_formats r)))"

section \<open>The track list\<close>

definition track_artist :: "track_entry \<Rightarrow> py_error + string \<times> string list" where
  \<comment> \<open>the \<^verbatim>\<open>try\<close> statement of both loops, giving (sort_artist, artist). On an empty
      artist list \<^verbatim>\<open>t["artists"][0]\<close> raises IndexError, which is caught; the handler
      starts with \<^verbatim>\<open>artist = self.artist\<close>, and \<^verbatim>\<open>artist\<close> is a property that is commented
      out (lines 143-148), so AttributeError leaves the handler.\<close>
  "track_artist t =
     (let body = (case t_artists t of
                    [] \<Rightarrow> Inl IndexError
                  | a # _ \<Rightarrow> Inr (clean_name (name a), gen_artist (t_artists t)))
      in case body of Inl IndexError \<Rightarrow> Inl AttributeError | res \<Rightarrow> res)"

definition is_subtitle :: "track_entry \<Rightarrow> bool" where
  \<comment> \<open>\<^verbatim>\<open>t["title"] and not t["position"] and not t["duration"]\<close>\<close>
  "is_subtitle t \<longleftrightarrow> t_title t \<noteq> [] \<and> t_position t = [] \<and> t_duration t = []"

definition numbering :: "release \<Rightarrow> track_entry \<Rightarrow> py_error + int \<times> int" where
  \<comment> \<open>the \<^verbatim>\<open>if self.disctotal > 1\<close> statement of both loops, giving
      (tracknumber, discnumber)\<close>
  "numbering r t =
     (case disctotal r of
        Inl e \<Rightarrow> Inl e
      | Inr dt \<Rightarrow>
          if dt > 1
          then (let pos = disc_and_track_no (t_position t)
                in case py_int (pos_tracknumber pos) of
                     Inl e \<Rightarrow> Inl e
                   | Inr tn \<Rightarrow> (case py_int (pos_discnumber pos) of
                                  Inl e \<Rightarrow> Inl e
                                | Inr dn \<Rightarrow> Inr (tn, dn)))
          else (case py_int (t_position t) of
                  Inl e \<Rightarrow> Inl e
                | Inr tn \<Rightarrow> Inr (tn, 1)))"

definition set_discsubtitle :: "string option \<Rightarrow> track \<Rightarrow> track" where
  \<comment> \<open>\<^verbatim>\<open>if discsubtitle: track.discsubtitle = discsubtitle\<close>\<close>
  "set_discsubtitle ds track =
     (case ds of
        None \<Rightarrow> track
      | Some s \<Rightarrow> if s \<noteq> [] then track\<lparr>discsubtitle := Some s\<rparr> else track)"

definition Track :: "nat \<Rightarrow> string list \<Rightarrow> string \<Rightarrow> track" where
  \<comment> \<open>Modelled from the spec: the class \<^verbatim>\<open>Track\<close> of the module \<^verbatim>\<open>album\<close>, which is
      not among the sources. The constructor keeps position, artist and title; the
      other attributes are not set yet (placeholders here, each assigned by the loop
      before the track is appended, the subtitle apart).\<close>
  "Track p a ti =
     \<lparr>position = p, tracknumber = 0, discnumber = 0, discsubtitle = None,
      sortartist = [], artist = a, title = ti\<rparr>"

fun discs_and_tracks_loop ::
  "release \<Rightarrow> (nat \<times> track_entry) list \<Rightarrow> string option \<Rightarrow> track list
     \<Rightarrow> py_error + track list" where
  "discs_and_tracks_loop r [] ds track_list = Inr track_list"
| "discs_and_tracks_loop r ((i, t) # rest) ds track_list =
     (case track_artist t of
        Inl e \<Rightarrow> Inl e
      | Inr (sort_artist', artist') \<Rightarrow>
          (let track = Track (i + 1) artist' (t_title t)
           in if is_subtitle t
              then discs_and_tracks_loop r rest (Some (t_title t)) track_list
              else (case numbering r t of
                      Inl e \<Rightarrow> Inl e
                    | Inr (tn, dn) \<Rightarrow>
                        discs_and_tracks_loop r rest ds
                          (track_list @
                           [(set_discsubtitle ds
                               (track\<lparr>position := i + 1, tracknumber := tn, discnumber := dn\<rparr>))
                            \<lparr>sortartist := sort_artist', artist := artist'\<rparr>]))))"

definition track_entries :: "release \<Rightarrow> track_entry list" where
  \<comment> \<open>the generator \<^verbatim>\<open>(x for x in self.release.tracklist if x["type"] == "Track")\<close>\<close>
  "track_entries r = filter (\<lambda>x. t_type x = ''Track'') (tracklist r)"

definition discs_and_tracks :: "release \<Rightarrow> py_error + track list" where
  \<comment> \<open>the property reads \<^verbatim>\<open>self.release\<close> only; its \<^verbatim>\<open>disc_list\<close> and \<^verbatim>\<open>disc\<close> are
      never used\<close>
  "discs_and_tracks r = discs_and_tracks_loop r (enumerate 0 (track_entries r)) None []"

text \<open>
  The property \<^verbatim>\<open>tracks\<close> calls \<^verbatim>\<open>TrackContainer()\<close>, a class that the module neither
  defines nor imports. What the call yields is a parameter: \<open>Inl NameError\<close> for the
  module as it stands, \<open>Inr\<close> of a fresh object where the class is supplied. The loop
  also stores into \<^verbatim>\<open>self.discs\<close>, so the attribute is threaded through and returned,
  also when the loop raises.
\<close>

fun tracks_loop ::
  "py_error + track \<Rightarrow> release \<Rightarrow> (nat \<times> track_entry) list \<Rightarrow> string option \<Rightarrow> track list
     \<Rightarrow> (int \<rightharpoonup> int) option \<Rightarrow> (int \<rightharpoonup> int) option \<times> (py_error + track list)" where
  "tracks_loop TrackContainer r [] ds track_list discs = (discs, Inr track_list)"
| "tracks_loop TrackContainer r ((i, t) # rest) ds track_list discs =
     (case track_artist t of
        Inl e \<Rightarrow> (discs, Inl e)
      | Inr (sort_artist', artist') \<Rightarrow>
          (case TrackContainer of
             Inl e \<Rightarrow> (discs, Inl e)
           | Inr track \<Rightarrow>
               if is_subtitle t
               then tracks_loop TrackContainer r rest (Some (t_title t)) track_list discs
               else (case numbering r t of
                       Inl e \<Rightarrow> (discs, Inl e)
                     | Inr (tn, dn) \<Rightarrow>
                         (case discs of
                            None \<Rightarrow> (None, Inl AttributeError)
                          | Some d \<Rightarrow>
                              tracks_loop TrackContainer r rest ds
                                (track_list @
                                 [(set_discsubtitle ds
                                     (track\<lparr>position := i + 1, tracknumber := tn,
                                             discnumber := dn\<rparr>))
                                  \<lparr>sortartist := sort_artist', artist := artist',
                                    title := t_title t\<rparr>])
                                (Some (d(dn \<mapsto> tn)))))))"

definition tracks ::
  "py_error + track \<Rightarrow> discogs_album \<Rightarrow> discogs_album \<times> (py_error + track list)" where
  "tracks TrackContainer self =
     (let (d, res) =
            tracks_loop TrackContainer (self_release self)
              (enumerate 0 (track_entries (self_release self))) None [] (self_discs self)
      in (self\<lparr>self_discs := d\<rparr>, res))"

definition pending :: "string option \<Rightarrow> string option" where
  \<comment> \<open>what \<open>set_discsubtitle\<close> leaves in a track that had no subtitle: the loop
      variable when it is a non-empty string, nothing otherwise\<close>
  "pending ds = (case ds of None \<Rightarrow> None | Some s \<Rightarrow> if s \<noteq> [] then Some s else None)"

definition emitted :: "release \<Rightarrow> track \<Rightarrow> nat \<times> track_entry \<Rightarrow> bool" where
  \<comment> \<open>the track \<open>x\<close> is what one pass of the loop body makes of the enumerated
      entry \<open>p\<close>, the subtitle apart\<close>
  "emitted r x p \<longleftrightarrow>
     position x = Suc (fst p) \<and> title x = t_title (snd p)
     \<and> numbering r (snd p) = Inr (tracknumber x, discnumber x)
     \<and> track_artist (snd p) = Inr (sortartist x, artist x)"

section \<open>Catalog snapshots used as concrete inputs\<close>

definition empty_container :: track where
  \<comment> \<open>what \<^verbatim>\<open>TrackContainer()\<close> yields where the class is supplied: an object with no
      attribute set (placeholders, each assigned by the loop, the subtitle apart)\<close>
  "empty_container =
     \<lparr>position = 0, tracknumber = 0, discnumber = 0, discsubtitle = None,
      sortartist = [], artist = [], title = []\<rparr>"

definition artist_X :: artist_rec where
  "artist_X = \<lparr>name = ''X''\<rparr>"

definition mk_entry :: "string \<Rightarrow> string \<Rightarrow> string \<Rightarrow> artist_rec list \<Rightarrow> track_entry" where
  "mk_entry ti p d a =
     \<lparr>t_type = ''Track'', t_title = ti, t_position = p, t_duration = d, t_artists = a\<rparr>"

definition mk_release :: "string \<Rightarrow> track_entry list \<Rightarrow> release" where
  "mk_release q es =
     \<lparr>tracklist = es, artists = [artist_X], data_year = Some ''1999'',
      data_formats = [\<lparr>qty = q, descriptions = None\<rparr>], data_artists = [artist_X]\<rparr>"

definition subtitle_release :: release where
  \<comment> \<open>one disc: a subtitle entry, then two tracks\<close>
  "subtitle_release =
     mk_release ''1''
       [mk_entry ''Disc One'' [] [] [artist_X],
        mk_entry ''A'' ''1'' ''3:00'' [artist_X],
        mk_entry ''B'' ''2'' ''4:00'' [artist_X]]"

definition two_disc_release :: release where
  \<comment> \<open>two discs: a subtitle entry, a track on disc 1, a track on disc 2\<close>
  "two_disc_release =
     mk_release ''2''
       [mk_entry ''Disc One'' [] [] [artist_X],
        mk_entry ''A'' ''1-1'' ''3:00'' [artist_X],
        mk_entry ''B'' ''2-1'' ''4:00'' [artist_X]]"

definition plain_release :: release where
  \<comment> \<open>two discs, three tracks, an entry of another type between them\<close>
  "plain_release =
     mk_release ''2''
       [mk_entry ''A'' ''1-1'' ''3:00'' [artist_X],
        (mk_entry ''Side two'' [] [] [])\<lparr>t_type := ''Index''\<rparr>,
        mk_entry ''B'' ''1-2'' ''4:00'' [artist_X],
        mk_entry ''C'' ''2-1'' ''5:00'' [artist_X]]"

definition zero_qty_release :: release where
  "zero_qty_release = mk_release ''0'' [mk_entry ''A'' ''1'' ''3:00'' [artist_X]]"

definition disc_five_release :: release where
  "disc_five_release = mk_release ''2'' [mk_entry ''A'' ''5-1'' ''3:00'' [artist_X]]"

definition vinyl_release :: release where
  "vinyl_release = mk_release ''1'' [mk_entry ''A'' ''A1'' ''3:00'' [artist_X]]"

definition no_artist_release :: release where
  "no_artist_release = mk_release ''1'' [mk_entry ''B'' ''1'' ''3:00'' []]"

definition year_zero_release :: release where
  \<comment> \<open>the catalog's year 0, an unknown year\<close>
  "year_zero_release = (mk_release ''1'' [])\<lparr>data_year := Some ''0''\<rparr>"

definition year_absent_release :: release where
  "year_absent_release = (mk_release ''1'' [])\<lparr>data_year := None\<rparr>"

definition various_artists_release :: release where
  "various_artists_release =
     \<lparr>tracklist = [], artists = [\<lparr>name = ''Various Artists''\<rparr>], data_year = Some ''1999'',
      data_formats = [\<lparr>qty = ''1'', descriptions = Some [''Album'', ''Compilation'']\<rparr>,
                      \<lparr>qty = ''1'', descriptions = None\<rparr>],
      data_artists = [\<lparr>name = ''Various Artists''\<rparr>]\<rparr>"

section \<open>Position tokens\<close>

lemma find_str_ge: "- 1 \<le> find_str p c"
  by (induction p) (auto simp: Let_def)

lemma find_str_absent: "find_str p c = - 1 \<longleftrightarrow> c \<notin> set p"
proof (induction p)
  case Nil
  then show ?case by simp
next
  case (Cons x xs)
  have "- 1 \<le> find_str xs c" by (rule find_str_ge)
  with Cons show ?case by (auto simp: Let_def)
qed

lemma find_str_nonneg: "c \<in> set p \<Longrightarrow> 0 \<le> find_str p c"
  using find_str_ge [of p c] find_str_absent [of p c] by linarith

lemma find_str_split:
  "c \<in> set p \<Longrightarrow>
   p = take (nat (find_str p c)) p @ c # drop (nat (find_str p c + 1)) p
   \<and> c \<notin> set (take (nat (find_str p c)) p)"
proof (induction p)
  case Nil
  then show ?case by simp
next
  case (Cons x xs)
  show ?case
  proof (cases "x = c")
    case True
    then show ?thesis by simp
  next
    case False
    with Cons.prems have m: "c \<in> set xs" by simp
    then have nn: "0 \<le> find_str xs c" by (rule find_str_nonneg)
    then have ne: "find_str xs c \<noteq> - 1" by simp
    have n1: "nat (find_str xs c + 1) = Suc (nat (find_str xs c))" using nn by simp
    have n2: "nat (find_str xs c + 1 + 1) = Suc (Suc (nat (find_str xs c)))" using nn by simp
    from Cons.IH [OF m] False ne n1 n2 show ?thesis
      by (simp add: Let_def)
  qed
qed

text \<open>
  C5, as the code has it. A token with a \<^verbatim>\<open>-\<close> splits at the first one; a token
  with no \<^verbatim>\<open>-\<close> but a \<^verbatim>\<open>.\<close> splits at the first \<^verbatim>\<open>.\<close>; what stands before the
  delimiter is the disc-number substring, what stands after it the track-number
  substring. A token with neither delimiter has the empty disc-number substring:
  the parser has no default disc.
\<close>

theorem disc_and_track_no_split:
  "(CHR ''-'' \<in> set p \<longrightarrow>
      p = pos_discnumber (disc_and_track_no p) @ CHR ''-'' # pos_tracknumber (disc_and_track_no p)
      \<and> CHR ''-'' \<notin> set (pos_discnumber (disc_and_track_no p)))
   \<and> (CHR ''-'' \<notin> set p \<and> CHR ''.'' \<in> set p \<longrightarrow>
      p = pos_discnumber (disc_and_track_no p) @ CHR ''.'' # pos_tracknumber (disc_and_track_no p)
      \<and> CHR ''.'' \<notin> set (pos_discnumber (disc_and_track_no p)))
   \<and> (CHR ''-'' \<notin> set p \<and> CHR ''.'' \<notin> set p \<longrightarrow>
      pos_discnumber (disc_and_track_no p) = [])"
proof (intro conjI impI)
  assume h: "CHR ''-'' \<in> set p"
  then have "find_str p (CHR ''-'') \<noteq> - 1" by (simp add: find_str_absent)
  then have d: "disc_and_track_no p =
      \<lparr>pos_tracknumber = drop (nat (find_str p (CHR ''-'') + 1)) p,
       pos_discnumber = take (nat (find_str p (CHR ''-''))) p\<rparr>"
    by (simp add: disc_and_track_no_def Let_def)
  from find_str_split [OF h] d
  show "p = pos_discnumber (disc_and_track_no p) @ CHR ''-'' # pos_tracknumber (disc_and_track_no p)"
    by simp
  from find_str_split [OF h] d
  show "CHR ''-'' \<notin> set (pos_discnumber (disc_and_track_no p))"
    by simp
next
  assume h: "CHR ''-'' \<notin> set p \<and> CHR ''.'' \<in> set p"
  then have a: "find_str p (CHR ''-'') = - 1" and b: "find_str p (CHR ''.'') \<noteq> - 1"
    by (simp_all add: find_str_absent)
  then have d: "disc_and_track_no p =
      \<lparr>pos_tracknumber = drop (nat (find_str p (CHR ''.'') + 1)) p,
       pos_discnumber = take (nat (find_str p (CHR ''.''))) p\<rparr>"
    by (simp add: disc_and_track_no_def Let_def)
  from h have m: "CHR ''.'' \<in> set p" by simp
  from find_str_split [OF m] d
  show "p = pos_discnumber (disc_and_track_no p) @ CHR ''.'' # pos_tracknumber (disc_and_track_no p)"
    by simp
  from find_str_split [OF m] d
  show "CHR ''.'' \<notin> set (pos_discnumber (disc_and_track_no p))"
    by simp
next
  assume h: "CHR ''-'' \<notin> set p \<and> CHR ''.'' \<notin> set p"
  then have a: "find_str p (CHR ''-'') = - 1" and b: "find_str p (CHR ''.'') = - 1"
    by (simp_all add: find_str_absent)
  then show "pos_discnumber (disc_and_track_no p) = []"
    by (simp add: disc_and_track_no_def Let_def)
qed

text \<open>The three cases of C5 at the tokens \<^verbatim>\<open>1-3\<close>, \<^verbatim>\<open>2.05\<close> and \<^verbatim>\<open>A1\<close>.\<close>

theorem disc_and_track_no_split_witness:
  "CHR ''-'' \<in> set ''1-3''
   \<and> disc_and_track_no ''1-3'' = \<lparr>pos_tracknumber = ''3'', pos_discnumber = ''1''\<rparr>
   \<and> CHR ''-'' \<notin> set ''2.05'' \<and> CHR ''.'' \<in> set ''2.05''
   \<and> disc_and_track_no ''2.05'' = \<lparr>pos_tracknumber = ''05'', pos_discnumber = ''2''\<rparr>
   \<and> CHR ''-'' \<notin> set ''A1'' \<and> CHR ''.'' \<notin> set ''A1''
   \<and> pos_discnumber (disc_and_track_no ''A1'') = []"
  using disc_and_track_no_split [of "''1-3''"] disc_and_track_no_split [of "''2.05''"]
    disc_and_track_no_split [of "''A1''"]
  by (simp add: disc_and_track_no_def Let_def)

text \<open>
  C5 as the spec states it fails at the token \<^verbatim>\<open>12\<close>, which has no delimiter: the
  track-number substring is \<^verbatim>\<open>2\<close>, not the whole token, and the disc-number substring
  is empty, not 1.
\<close>

theorem disc_and_track_no_counterexample:
  "disc_and_track_no ''12'' = \<lparr>pos_tracknumber = ''2'', pos_discnumber = []\<rparr>"
  by (simp add: disc_and_track_no_def Let_def)

section \<open>Release-level facts\<close>

lemma descriptions_loop_iff: "descriptions_loop ds \<longleftrightarrow> ''compilation'' \<in> set ds"
  by (induction ds) auto

lemma formats_loop_iff:
  "formats_loop fs \<longleftrightarrow> (\<exists>f\<in>set fs. \<exists>ds. descriptions f = Some ds \<and> ''compilation'' \<in> set ds)"
  by (induction fs) (auto simp: descriptions_loop_iff split: option.splits)

text \<open>
  C9. For a release with a first credited artist, \<^verbatim>\<open>is_compilation\<close> returns, and it
  returns true exactly when that artist's raw name is the literal \<^verbatim>\<open>Various\<close> or some
  format has a descriptor equal to \<^verbatim>\<open>compilation\<close>.
\<close>

theorem is_compilation_iff:
  "data_artists r = a # rest \<Longrightarrow>
   is_compilation r =
     Inr (name a = ''Various''
          \<or> (\<exists>f\<in>set (data_formats r). \<exists>ds. descriptions f = Some ds \<and> ''compilation'' \<in> set ds))"
  by (simp add: is_compilation_def formats_loop_iff)

text \<open>
  C9 at a release credited to \<^verbatim>\<open>Various Artists\<close> whose descriptors are \<^verbatim>\<open>Album\<close> and
  \<^verbatim>\<open>Compilation\<close> (capitalised): neither test matches, the result is false.
\<close>

theorem is_compilation_iff_witness:
  "data_artists various_artists_release = \<lparr>name = ''Various Artists''\<rparr> # []
   \<and> is_compilation various_artists_release = Inr False"
  using is_compilation_iff [of various_artists_release "\<lparr>name = ''Various Artists''\<rparr>" "[]"]
  by (auto simp: various_artists_release_def)

text \<open>
  C4 fails on the code. The handler of \<^verbatim>\<open>year\<close> catches IndexError, which the body
  never raises: with the year 0 the pattern does not match and \<^verbatim>\<open>None.group(0)\<close>
  raises AttributeError; with no year key the lookup raises KeyError. Neither returns
  the sentinel.
\<close>

theorem year_raises:
  "year year_zero_release = Inl AttributeError \<and> year year_absent_release = Inl KeyError"
  by (simp add: year_def good_year_match_def mk_release_def year_zero_release_def
      year_absent_release_def)

section \<open>Name clean-up: properties\<close>

lemma match_dup_no_paren: "CHR ''('' \<notin> set x \<Longrightarrow> match_dup x = None"
  by (cases x rule: match_dup.cases) auto

lemma clean_duplicate_handling_no_paren:
  "CHR ''('' \<notin> set x \<Longrightarrow> clean_duplicate_handling x = x"
proof (induction x)
  case Nil
  then show ?case by simp
next
  case (Cons c cs)
  from Cons.prems have "match_dup (c # cs) = None" by (rule match_dup_no_paren)
  with Cons show ?case by simp
qed

lemma digits_no_paren: "count_list (takeWhile is_digit rest) (CHR ''('') = 0"
proof -
  have "CHR ''('' \<notin> set (takeWhile is_digit rest)"
    by (auto dest!: set_takeWhileD simp: is_digit_def)
  then show ?thesis by (simp add: count_list_0_iff)
qed

lemma match_dup_count:
  assumes "match_dup x = Some r"
  shows "count_list x (CHR ''('') = Suc (count_list r (CHR ''(''))"
proof -
  from assms obtain w rest where x: "x = w # CHR ''('' # rest" and w: "is_space w"
    and d: "dropWhile is_digit rest = CHR '')'' # r"
    by (cases x rule: match_dup.cases) (auto split: if_splits list.splits)
  have "rest = takeWhile is_digit rest @ dropWhile is_digit rest" by simp
  then have "count_list rest (CHR ''('') =
      count_list (takeWhile is_digit rest) (CHR ''('') + count_list (dropWhile is_digit rest) (CHR ''('')"
    by (metis count_list_append)
  with d have "count_list rest (CHR ''('') = count_list r (CHR ''('')"
    by (simp add: digits_no_paren)
  moreover from w have "w \<noteq> CHR ''(''" by (auto simp: is_space_def)
  ultimately show ?thesis using x by simp
qed

lemma clean_duplicate_handling_count:
  "clean_duplicate_handling x = x
   \<or> count_list (clean_duplicate_handling x) (CHR ''('') < count_list x (CHR ''('')"
proof (induction x rule: clean_duplicate_handling.induct)
  case 1
  then show ?case by simp
next
  case (2 c cs)
  show ?case
  proof (cases "match_dup (c # cs)")
    case None
    from 2(1) [OF None] None show ?thesis by auto
  next
    case (Some r)
    from match_dup_count [OF Some] 2(2) [OF Some] Some show ?thesis by auto
  qed
qed

text \<open>
  C6, as the code has it. The substitution is one pass from the left, so removing an
  occurrence can bring a new one together. On a name with at most one opening
  parenthesis this cannot happen, and stripping twice is the same as stripping once.
\<close>

theorem clean_duplicate_handling_idempotent:
  assumes "count_list x (CHR ''('') \<le> 1"
  shows "clean_duplicate_handling (clean_duplicate_handling x) = clean_duplicate_handling x"
proof -
  from clean_duplicate_handling_count [of x] show ?thesis
  proof
    assume "clean_duplicate_handling x = x"
    then show ?thesis by simp
  next
    assume "count_list (clean_duplicate_handling x) (CHR ''('') < count_list x (CHR ''('')"
    with assms have "count_list (clean_duplicate_handling x) (CHR ''('') = 0" by simp
    then have "CHR ''('' \<notin> set (clean_duplicate_handling x)" by (simp add: count_list_0_iff)
    then show ?thesis by (rule clean_duplicate_handling_no_paren)
  qed
qed

text \<open>C6 at the name \<^verbatim>\<open>Goldie (12)\<close>, which has one opening parenthesis.\<close>

theorem clean_duplicate_handling_idempotent_witness:
  "count_list ''Goldie (12)'' (CHR ''('') \<le> 1
   \<and> clean_duplicate_handling ''Goldie (12)'' = ''Goldie''
   \<and> clean_duplicate_handling (clean_duplicate_handling ''Goldie (12)'')
       = clean_duplicate_handling ''Goldie (12)''"
proof -
  have h: "count_list ''Goldie (12)'' (CHR ''('') \<le> 1" by simp
  have v: "clean_duplicate_handling ''Goldie (12)'' = ''Goldie''"
    by (simp add: is_space_def is_digit_def)
  from h v clean_duplicate_handling_idempotent [OF h] show ?thesis by simp
qed

text \<open>
  C6 as the spec states it fails at \<^verbatim>\<open>A ( (2)1)\<close>: the first pass removes the inner
  \<^verbatim>\<open> (2)\<close> and leaves \<^verbatim>\<open>A (1)\<close>, the second pass removes \<^verbatim>\<open> (1)\<close> and leaves \<^verbatim>\<open>A\<close>.
\<close>

theorem clean_duplicate_handling_counterexample:
  "clean_duplicate_handling ''A ( (2)1)'' = ''A (1)''
   \<and> clean_duplicate_handling (clean_duplicate_handling ''A ( (2)1)'') = ''A''"
  by (simp add: is_space_def is_digit_def)

text \<open>
  C7, as the code has it. \<^verbatim>\<open>sort_artist\<close> applies the duplicate-suffix strip, and only
  that, to the first credited artist's raw name: a name \<^verbatim>\<open><X>, The\<close> (with no
  parenthesis in X) stays \<^verbatim>\<open><X>, The\<close>.
\<close>

theorem sort_artist_strips_suffix_only:
  "sort_artist (a # rest) = Inr (clean_duplicate_handling (name a))
   \<and> (CHR ''('' \<notin> set x \<longrightarrow>
        sort_artist (\<lparr>name = x @ '', The''\<rparr> # rest) = Inr (x @ '', The''))"
  by (simp add: sort_artist_def clean_duplicate_handling_no_paren)

text \<open>C7 at the names \<^verbatim>\<open>Beatles (2)\<close> and \<^verbatim>\<open>Beatles, The\<close>.\<close>

theorem sort_artist_strips_suffix_only_witness:
  "CHR ''('' \<notin> set ''Beatles''
   \<and> sort_artist [\<lparr>name = ''Beatles (2)''\<rparr>] = Inr ''Beatles''
   \<and> sort_artist [\<lparr>name = ''Beatles, The''\<rparr>] = Inr ''Beatles, The''"
  using sort_artist_strips_suffix_only [of "\<lparr>name = ''Beatles (2)''\<rparr>" "[]" "''Beatles''"]
  by (simp add: is_space_def is_digit_def)

text \<open>
  C7 as the spec states it fails at the first artist \<^verbatim>\<open>Aphex Twin, The\<close>: the sort
  artist keeps the name as it is, while \<^verbatim>\<open>clean_name\<close> gives \<^verbatim>\<open>The Aphex Twin\<close>.
\<close>

theorem sort_artist_counterexample:
  "sort_artist [\<lparr>name = ''Aphex Twin, The''\<rparr>] = Inr ''Aphex Twin, The''
   \<and> clean_name ''Aphex Twin, The'' = ''The Aphex Twin''"
  by (simp add: sort_artist_def clean_name_def the_tail_def is_space_def)

section \<open>The track list: properties\<close>

text \<open>
  C3 fails on the code. For a "Track" entry with an empty artist list the handler of
  the \<^verbatim>\<open>try\<close> statement reads \<^verbatim>\<open>self.artist\<close>, a property that is commented out, so
  both loops raise AttributeError instead of falling back to the release's artists,
  whether or not \<^verbatim>\<open>TrackContainer\<close> is bound.
\<close>

theorem fallback_raises:
  "discs_and_tracks no_artist_release = Inl AttributeError
   \<and> snd (tracks (Inl NameError) (init no_artist_release)) = Inl AttributeError
   \<and> snd (tracks (Inr empty_container) (init no_artist_release)) = Inl AttributeError"
  by (simp add: discs_and_tracks_def tracks_def track_entries_def no_artist_release_def
      mk_release_def mk_entry_def init_def enumerate_eq_zip track_artist_def)

text \<open>
  One pass of the body of \<^verbatim>\<open>discs_and_tracks\<close>, for a run of the loop that returns:
  a subtitle entry only replaces the loop variable \<^verbatim>\<open>discsubtitle\<close>; any other entry
  appends one track.
\<close>

lemma loop_subtitle_step:
  assumes "is_subtitle t" "discs_and_tracks_loop r ((i, t) # rest) ds acc = Inr ts"
  shows "discs_and_tracks_loop r rest (Some (t_title t)) acc = Inr ts"
  using assms by (simp split: sum.splits prod.splits)

lemma loop_track_step:
  assumes "\<not> is_subtitle t" "discs_and_tracks_loop r ((i, t) # rest) ds acc = Inr ts"
  shows "\<exists>sa ar tn dn. track_artist t = Inr (sa, ar) \<and> numbering r t = Inr (tn, dn)
           \<and> discs_and_tracks_loop r rest ds
                (acc @ [\<lparr>position = Suc i, tracknumber = tn, discnumber = dn,
                         discsubtitle = pending ds, sortartist = sa, artist = ar,
                         title = t_title t\<rparr>]) = Inr ts"
  using assms
  by (auto simp: Track_def set_discsubtitle_def pending_def split: sum.splits prod.splits option.splits)

lemma loop_emits:
  "discs_and_tracks_loop r es ds acc = Inr ts \<Longrightarrow>
   \<exists>new. ts = acc @ new \<and> list_all2 (emitted r) new (filter (\<lambda>p. \<not> is_subtitle (snd p)) es)"
proof (induction es arbitrary: ds acc)
  case Nil
  then show ?case by simp
next
  case (Cons p rest)
  obtain i t where p: "p = (i, t)" by (cases p)
  show ?case
  proof (cases "is_subtitle t")
    case True
    from loop_subtitle_step [OF True Cons.prems [unfolded p]]
    have "discs_and_tracks_loop r rest (Some (t_title t)) acc = Inr ts" .
    from Cons.IH [OF this] True p show ?thesis by simp
  next
    case False
    from loop_track_step [OF False Cons.prems [unfolded p]]
    obtain sa ar tn dn where a: "track_artist t = Inr (sa, ar)" and n: "numbering r t = Inr (tn, dn)"
      and l: "discs_and_tracks_loop r rest ds
                (acc @ [\<lparr>position = Suc i, tracknumber = tn, discnumber = dn,
                         discsubtitle = pending ds, sortartist = sa, artist = ar,
                         title = t_title t\<rparr>]) = Inr ts"
      by blast
    from Cons.IH [OF l] obtain new where
      new: "ts = (acc @ [\<lparr>position = Suc i, tracknumber = tn, discnumber = dn,
                         discsubtitle = pending ds, sortartist = sa, artist = ar,
                         title = t_title t\<rparr>]) @ new"
      and all: "list_all2 (emitted r) new (filter (\<lambda>p. \<not> is_subtitle (snd p)) rest)"
      by blast
    have "emitted r \<lparr>position = Suc i, tracknumber = tn, discnumber = dn,
                         discsubtitle = pending ds, sortartist = sa, artist = ar,
                         title = t_title t\<rparr> (i, t)"
      using a n by (simp add: emitted_def)
    with new all False p show ?thesis by simp
  qed
qed

lemma loop_subtitles:
  "discs_and_tracks_loop r es ds acc = Inr ts \<Longrightarrow> map snd es = pre @ t # post \<Longrightarrow>
   \<not> is_subtitle t \<Longrightarrow>
   discsubtitle (ts ! (length acc + length (filter (\<lambda>x. \<not> is_subtitle x) pre))) =
     (if filter is_subtitle pre = [] then pending ds
      else Some (t_title (last (filter is_subtitle pre))))"
proof (induction es arbitrary: ds acc pre)
  case Nil
  then show ?case by simp
next
  case (Cons p rest)
  obtain i e where p: "p = (i, e)" by (cases p)
  show ?case
  proof (cases pre)
    case Nil
    with Cons.prems p have e: "e = t" by simp
    from loop_track_step [OF Cons.prems(3) Cons.prems(1) [unfolded p e]]
    obtain sa ar tn dn where
      l: "discs_and_tracks_loop r rest ds
                (acc @ [\<lparr>position = Suc i, tracknumber = tn, discnumber = dn,
                         discsubtitle = pending ds, sortartist = sa, artist = ar,
                         title = t_title t\<rparr>]) = Inr ts"
      by blast
    from loop_emits [OF l] obtain new where
      "ts = (acc @ [\<lparr>position = Suc i, tracknumber = tn, discnumber = dn,
                         discsubtitle = pending ds, sortartist = sa, artist = ar,
                         title = t_title t\<rparr>]) @ new"
      by blast
    then have "discsubtitle (ts ! length acc) = pending ds" by simp
    with Nil show ?thesis by simp
  next
    case (Cons e' pre')
    with Cons.prems p have e: "e' = e" and m: "map snd rest = pre' @ t # post" by simp_all
    show ?thesis
    proof (cases "is_subtitle e")
      case True
      then have ne: "t_title e \<noteq> []" by (simp add: is_subtitle_def)
      from loop_subtitle_step [OF True Cons.prems(1) [unfolded p]]
      have "discs_and_tracks_loop r rest (Some (t_title e)) acc = Inr ts" .
      from Cons.IH [OF this m Cons.prems(3)] True ne Cons e show ?thesis
        by (simp add: pending_def)
    next
      case False
      from loop_track_step [OF False Cons.prems(1) [unfolded p]]
      obtain sa ar tn dn where
        l: "discs_and_tracks_loop r rest ds
                (acc @ [\<lparr>position = Suc i, tracknumber = tn, discnumber = dn,
                         discsubtitle = pending ds, sortartist = sa, artist = ar,
                         title = t_title e\<rparr>]) = Inr ts"
        by blast
      from Cons.IH [OF l m Cons.prems(3)] False Cons e show ?thesis by simp
    qed
  qed
qed

subsection \<open>The property \<^verbatim>\<open>discs_and_tracks\<close>\<close>

lemma discs_and_tracks_emits:
  assumes "discs_and_tracks r = Inr ts"
  shows "list_all2 (emitted r) ts
           (filter (\<lambda>p. \<not> is_subtitle (snd p)) (enumerate 0 (track_entries r)))"
  using loop_emits [OF assms [unfolded discs_and_tracks_def]] by simp

lemma filter_snd_enumerate:
  "map snd (filter (\<lambda>p. P (snd p)) (enumerate n xs)) = filter P xs"
proof -
  have "filter P (map snd (enumerate n xs)) = map snd (filter (P \<circ> snd) (enumerate n xs))"
    by (rule filter_map)
  then show ?thesis by (simp add: comp_def)
qed

lemma emitted_positions:
  "list_all2 (emitted r) ts ps \<Longrightarrow> map position ts = map (\<lambda>(i, t). i + 1) ps"
  by (induction rule: list_all2_induct) (auto simp: emitted_def)

lemma emitted_titles:
  "list_all2 (emitted r) ts ps \<Longrightarrow> map title ts = map t_title (map snd ps)"
  by (induction rule: list_all2_induct) (auto simp: emitted_def)

lemma enumerate_positions_sorted:
  "sorted_wrt (<) (map (\<lambda>(i, t). i + 1) (filter Q (enumerate n xs)))"
proof -
  have "sorted_wrt (<) (map fst (enumerate n xs))" by simp
  then have "sorted_wrt (\<lambda>p q. fst p < fst q) (enumerate n xs)"
    by (simp only: sorted_wrt_map)
  then have "sorted_wrt (\<lambda>p q. fst p < fst q) (filter Q (enumerate n xs))"
    by (rule sorted_wrt_filter)
  then show ?thesis
    by (simp add: sorted_wrt_map case_prod_unfold)
qed

lemma discs_and_tracks_titles:
  assumes "discs_and_tracks r = Inr ts"
  shows "map title ts = map t_title (filter (\<lambda>t. \<not> is_subtitle t) (track_entries r))"
  using emitted_titles [OF discs_and_tracks_emits [OF assms]]
    filter_snd_enumerate [of "\<lambda>t. \<not> is_subtitle t" 0 "track_entries r"]
  by simp

text \<open>
  The property returns whenever every "Track" entry has a credited artist and the
  numbering of every entry that is no subtitle entry succeeds.
\<close>

lemma loop_returns:
  assumes "\<forall>t\<in>set (map snd es). t_artists t \<noteq> []"
    "\<forall>t\<in>set (map snd es). \<not> is_subtitle t \<longrightarrow> (\<exists>tn dn. numbering r t = Inr (tn, dn))"
  shows "\<exists>ts. discs_and_tracks_loop r es ds acc = Inr ts"
  using assms
proof (induction es arbitrary: ds acc)
  case Nil
  then show ?case by simp
next
  case (Cons p rest)
  obtain i t where p: "p = (i, t)" by (cases p)
  from Cons.prems p obtain a as where a: "t_artists t = a # as"
    by (cases "t_artists t") auto
  then have ta: "track_artist t = Inr (clean_name (name a), gen_artist (t_artists t))"
    by (simp add: track_artist_def)
  from Cons.prems have r1: "\<forall>t\<in>set (map snd rest). t_artists t \<noteq> []"
    and r2: "\<forall>t\<in>set (map snd rest). \<not> is_subtitle t \<longrightarrow> (\<exists>tn dn. numbering r t = Inr (tn, dn))"
    by simp_all
  show ?case
  proof (cases "is_subtitle t")
    case True
    from Cons.IH [OF r1 r2, of "Some (t_title t)" acc] True ta p show ?thesis by simp
  next
    case False
    with Cons.prems p obtain tn dn where n: "numbering r t = Inr (tn, dn)" by auto
    from Cons.IH [OF r1 r2] False ta n p show ?thesis by simp
  qed
qed

lemma discs_and_tracks_returns:
  assumes "\<forall>t\<in>set (track_entries r). t_artists t \<noteq> []"
    "\<forall>t\<in>set (track_entries r). \<not> is_subtitle t \<longrightarrow> (\<exists>tn dn. numbering r t = Inr (tn, dn))"
  shows "\<exists>ts. discs_and_tracks r = Inr ts"
  unfolding discs_and_tracks_def using assms
  by (intro loop_returns) simp_all

text \<open>
  The two loops emit the same tracks. Whatever list \<^verbatim>\<open>tracks\<close> returns, in whatever
  state of the object and whatever \<^verbatim>\<open>TrackContainer\<close> is bound to (a fresh object has no
  subtitle), \<^verbatim>\<open>discs_and_tracks\<close> returns for the same release. The facts about the
  emitted tracks are therefore stated once, on \<^verbatim>\<open>discs_and_tracks\<close>.
\<close>

lemma tracks_loop_as_discs_and_tracks_loop:
  assumes "\<forall>tr. tc = Inr tr \<longrightarrow> discsubtitle tr = None"
    "snd (tracks_loop tc r es ds acc discs) = Inr ts"
  shows "discs_and_tracks_loop r es ds acc = Inr ts"
  using assms
proof (induction es arbitrary: ds acc discs)
  case Nil
  then show ?case by simp
next
  case (Cons p rest)
  obtain i t where p: "p = (i, t)" by (cases p)
  from Cons.prems(2) p obtain sa ar where a: "track_artist t = Inr (sa, ar)"
    by (cases "track_artist t") auto
  from Cons.prems(2) p a obtain tr where tc: "tc = Inr tr"
    by (cases tc) auto
  with Cons.prems(1) have none: "discsubtitle tr = None" by simp
  show ?case
  proof (cases "is_subtitle t")
    case True
    with Cons.prems(2) p a tc
    have "snd (tracks_loop tc r rest (Some (t_title t)) acc discs) = Inr ts" by simp
    from Cons.IH [OF Cons.prems(1) this] True p a show ?thesis by simp
  next
    case False
    from Cons.prems(2) p a tc False obtain tn dn where n: "numbering r t = Inr (tn, dn)"
      by (cases "numbering r t") auto
    from Cons.prems(2) p a tc False n obtain d where d: "discs = Some d"
      by (cases discs) auto
    have same:
      "(set_discsubtitle ds (tr\<lparr>position := i + 1, tracknumber := tn, discnumber := dn\<rparr>))
         \<lparr>sortartist := sa, artist := ar, title := t_title t\<rparr>
       = (set_discsubtitle ds
           ((Track (i + 1) ar (t_title t))\<lparr>position := i + 1, tracknumber := tn, discnumber := dn\<rparr>))
         \<lparr>sortartist := sa, artist := ar\<rparr>"
      using none by (simp add: set_discsubtitle_def Track_def split: option.splits)
    from Cons.prems(2) p a tc False n d
    have "snd (tracks_loop tc r rest ds
            (acc @ [(set_discsubtitle ds (tr\<lparr>position := i + 1, tracknumber := tn, discnumber := dn\<rparr>))
                     \<lparr>sortartist := sa, artist := ar, title := t_title t\<rparr>])
            (Some (d(dn \<mapsto> tn)))) = Inr ts"
      by simp
    from Cons.IH [OF Cons.prems(1) this] same False p a n show ?thesis by simp
  qed
qed

lemma tracks_as_discs_and_tracks:
  assumes "\<forall>tr. tc = Inr tr \<longrightarrow> discsubtitle tr = None" "snd (tracks tc self) = Inr ts"
  shows "discs_and_tracks (self_release self) = Inr ts"
proof -
  from assms(2)
  have "snd (tracks_loop tc (self_release self) (enumerate 0 (track_entries (self_release self)))
               None [] (self_discs self)) = Inr ts"
    by (simp add: tracks_def case_prod_unfold Let_def)
  from tracks_loop_as_discs_and_tracks_loop [OF assms(1) this] show ?thesis
    by (simp add: discs_and_tracks_def)
qed

text \<open>The definitions that a run of the loops on a concrete release unfolds.\<close>

lemmas run_defs =
  discs_and_tracks_def track_entries_def mk_release_def mk_entry_def artist_X_def
  enumerate_eq_zip track_artist_def is_subtitle_def numbering_def disctotal_def
  py_int_def strip_def is_space_def is_digit_def digit_val_def Let_def
  disc_and_track_no_def Track_def set_discsubtitle_def clean_name_def gen_artist_def
  the_tail_def

lemma subtitle_release_tracks:
  "discs_and_tracks subtitle_release =
     Inr [\<lparr>position = 2, tracknumber = 1, discnumber = 1, discsubtitle = Some ''Disc One'',
           sortartist = ''X'', artist = [''X''], title = ''A''\<rparr>,
          \<lparr>position = 3, tracknumber = 2, discnumber = 1, discsubtitle = Some ''Disc One'',
           sortartist = ''X'', artist = [''X''], title = ''B''\<rparr>]"
  by (simp add: subtitle_release_def run_defs)

lemma two_disc_release_tracks:
  "discs_and_tracks two_disc_release =
     Inr [\<lparr>position = 2, tracknumber = 1, discnumber = 1, discsubtitle = Some ''Disc One'',
           sortartist = ''X'', artist = [''X''], title = ''A''\<rparr>,
          \<lparr>position = 3, tracknumber = 1, discnumber = 2, discsubtitle = Some ''Disc One'',
           sortartist = ''X'', artist = [''X''], title = ''B''\<rparr>]"
  by (simp add: two_disc_release_def run_defs)

lemma plain_release_tracks:
  "discs_and_tracks plain_release =
     Inr [\<lparr>position = 1, tracknumber = 1, discnumber = 1, discsubtitle = None,
           sortartist = ''X'', artist = [''X''], title = ''A''\<rparr>,
          \<lparr>position = 2, tracknumber = 2, discnumber = 1, discsubtitle = None,
           sortartist = ''X'', artist = [''X''], title = ''B''\<rparr>,
          \<lparr>position = 3, tracknumber = 1, discnumber = 2, discsubtitle = None,
           sortartist = ''X'', artist = [''X''], title = ''C''\<rparr>]"
  by (simp add: plain_release_def run_defs)

text \<open>
  C1, as the code has it. The loop that emits tracks is observed on
  \<^verbatim>\<open>discs_and_tracks\<close>, the property that \<^verbatim>\<open>map\<close> evaluates; \<^verbatim>\<open>tracks\<close> has the same
  body, returns nothing else (\<open>tracks_as_discs_and_tracks\<close>) and, on a freshly
  constructed object, emits no track (C2). Whenever the property returns, the emitted
  tracks are the "Track" entries that are not subtitle entries, in catalog order; the
  position of a track is its 1-based index among all "Track" entries, subtitle entries
  counted; positions are strictly increasing, and they are 1, 2, 3, ... when the
  tracklist has no subtitle entry.
\<close>

theorem discs_and_tracks_positions:
  assumes "discs_and_tracks r = Inr ts"
  shows "map title ts = map t_title (filter (\<lambda>t. \<not> is_subtitle t) (track_entries r))
     \<and> map position ts =
         map (\<lambda>(i, t). i + 1)
           (filter (\<lambda>(i, t). \<not> is_subtitle t) (enumerate 0 (track_entries r)))
     \<and> sorted_wrt (<) (map position ts)
     \<and> ((\<forall>t\<in>set (track_entries r). \<not> is_subtitle t) \<longrightarrow>
          map position ts = [1..<length ts + 1])"
proof -
  let ?ps = "filter (\<lambda>p. \<not> is_subtitle (snd p)) (enumerate 0 (track_entries r))"
  have ps: "filter (\<lambda>(i, t). \<not> is_subtitle t) (enumerate 0 (track_entries r)) = ?ps"
    by (simp add: case_prod_unfold)
  from discs_and_tracks_emits [OF assms] have e: "list_all2 (emitted r) ts ?ps" .
  have t: "map title ts = map t_title (filter (\<lambda>t. \<not> is_subtitle t) (track_entries r))"
    using assms by (rule discs_and_tracks_titles)
  from emitted_positions [OF e] have p: "map position ts = map (\<lambda>(i, t). i + 1) ?ps" .
  have s: "sorted_wrt (<) (map position ts)"
    unfolding p by (rule enumerate_positions_sorted)
  have c: "map position ts = [1..<length ts + 1]"
    if n: "\<forall>t\<in>set (track_entries r). \<not> is_subtitle t"
  proof -
    from n have "\<forall>p\<in>set (enumerate 0 (track_entries r)). \<not> is_subtitle (snd p)"
      by (auto simp: in_set_enumerate_eq)
    then have all: "?ps = enumerate 0 (track_entries r)" by simp
    from e have "length ts = length ?ps" by (rule list_all2_lengthD)
    with all have len: "length ts = length (track_entries r)" by simp
    have "map (\<lambda>(i, t). i + 1) (enumerate 0 (track_entries r))
        = map Suc (map fst (enumerate 0 (track_entries r)))"
      by (simp add: case_prod_unfold del: map_fst_enumerate)
    also have "\<dots> = map Suc [0..<length (track_entries r)]" by simp
    also have "\<dots> = [1..<length (track_entries r) + 1]"
      by (simp add: map_Suc_upt)
    finally show ?thesis using p all len by simp
  qed
  from t p s c ps show ?thesis by simp
qed

text \<open>
  C1 at a two-disc release of three tracks with an entry of type "Index" between them
  and no subtitle entry: the property returns, and the positions are 1, 2, 3.
\<close>

theorem discs_and_tracks_positions_witness:
  "discs_and_tracks plain_release =
     Inr [\<lparr>position = 1, tracknumber = 1, discnumber = 1, discsubtitle = None,
           sortartist = ''X'', artist = [''X''], title = ''A''\<rparr>,
          \<lparr>position = 2, tracknumber = 2, discnumber = 1, discsubtitle = None,
           sortartist = ''X'', artist = [''X''], title = ''B''\<rparr>,
          \<lparr>position = 3, tracknumber = 1, discnumber = 2, discsubtitle = None,
           sortartist = ''X'', artist = [''X''], title = ''C''\<rparr>]
   \<and> filter is_subtitle (track_entries plain_release) = []
   \<and> map t_title (filter (\<lambda>t. \<not> is_subtitle t) (track_entries plain_release))
       = [''A'', ''B'', ''C'']
   \<and> map (\<lambda>(i, t). i + 1)
         (filter (\<lambda>(i, t). \<not> is_subtitle t) (enumerate 0 (track_entries plain_release)))
       = [1, 2, 3]"
  using discs_and_tracks_positions [OF plain_release_tracks] plain_release_tracks
  by (simp add: plain_release_def track_entries_def mk_release_def mk_entry_def
      is_subtitle_def enumerate_eq_zip)

text \<open>
  C1 as the spec states it fails at a release whose tracklist is a subtitle entry
  followed by two tracks: the subtitle entry takes the index 0 of \<^verbatim>\<open>enumerate\<close>, so
  the tracks have the positions 2 and 3, not 1 and 2.
\<close>

theorem discs_and_tracks_positions_counterexample:
  "discs_and_tracks subtitle_release =
     Inr [\<lparr>position = 2, tracknumber = 1, discnumber = 1, discsubtitle = Some ''Disc One'',
           sortartist = ''X'', artist = [''X''], title = ''A''\<rparr>,
          \<lparr>position = 3, tracknumber = 2, discnumber = 1, discsubtitle = Some ''Disc One'',
           sortartist = ''X'', artist = [''X''], title = ''B''\<rparr>]"
  by (simp add: subtitle_release_def run_defs)

text \<open>
  C8, as the code has it. Whenever \<^verbatim>\<open>discs_and_tracks\<close> returns, the track emitted
  for a "Track" entry carries the title of the last subtitle entry before it in the
  tracklist, whatever the disc numbers in between, and carries no subtitle when no
  subtitle entry comes before it.
\<close>

theorem discs_and_tracks_discsubtitle:
  assumes "discs_and_tracks r = Inr ts" "track_entries r = pre @ t # post" "\<not> is_subtitle t"
  shows "length (filter (\<lambda>x. \<not> is_subtitle x) pre) < length ts
     \<and> title (ts ! length (filter (\<lambda>x. \<not> is_subtitle x) pre)) = t_title t
     \<and> discsubtitle (ts ! length (filter (\<lambda>x. \<not> is_subtitle x) pre)) =
         (if filter is_subtitle pre = [] then None
          else Some (t_title (last (filter is_subtitle pre))))"
proof -
  let ?k = "length (filter (\<lambda>x. \<not> is_subtitle x) pre)"
  let ?real = "filter (\<lambda>x. \<not> is_subtitle x) (track_entries r)"
  from discs_and_tracks_titles [OF assms(1)]
  have ti: "map title ts = map t_title ?real" .
  then have "length (map title ts) = length (map t_title ?real)" by simp
  then have len: "length ts = length ?real" by simp
  from assms(2,3) have real: "?real = filter (\<lambda>x. \<not> is_subtitle x) pre @ t # filter (\<lambda>x. \<not> is_subtitle x) post"
    by simp
  with len have k: "?k < length ts" by simp
  have "title (ts ! ?k) = map title ts ! ?k" using k by simp
  also have "\<dots> = map t_title ?real ! ?k" using ti by simp
  also have "\<dots> = t_title (?real ! ?k)" using k len by simp
  also have "\<dots> = t_title t" unfolding real by (simp add: nth_append)
  finally have tt: "title (ts ! ?k) = t_title t" .
  have m: "map snd (enumerate 0 (track_entries r)) = pre @ t # post"
    using assms(2) by simp
  from loop_subtitles [OF assms(1) [unfolded discs_and_tracks_def] m assms(3)]
  have "discsubtitle (ts ! ?k) =
         (if filter is_subtitle pre = [] then None
          else Some (t_title (last (filter is_subtitle pre))))"
    by (simp add: pending_def)
  with k tt show ?thesis by simp
qed

text \<open>
  C8 at the track \<^verbatim>\<open>B\<close> of a two-disc release: it comes after the subtitle entry
  \<^verbatim>\<open>Disc One\<close> and the track \<^verbatim>\<open>A\<close>, and carries \<^verbatim>\<open>Disc One\<close>.
\<close>

theorem discs_and_tracks_discsubtitle_witness:
  "discs_and_tracks two_disc_release =
     Inr [\<lparr>position = 2, tracknumber = 1, discnumber = 1, discsubtitle = Some ''Disc One'',
           sortartist = ''X'', artist = [''X''], title = ''A''\<rparr>,
          \<lparr>position = 3, tracknumber = 1, discnumber = 2, discsubtitle = Some ''Disc One'',
           sortartist = ''X'', artist = [''X''], title = ''B''\<rparr>]
   \<and> track_entries two_disc_release =
       [mk_entry ''Disc One'' [] [] [artist_X], mk_entry ''A'' ''1-1'' ''3:00'' [artist_X]]
       @ mk_entry ''B'' ''2-1'' ''4:00'' [artist_X] # []
   \<and> \<not> is_subtitle (mk_entry ''B'' ''2-1'' ''4:00'' [artist_X])
   \<and> Some (t_title (last (filter is_subtitle
         [mk_entry ''Disc One'' [] [] [artist_X], mk_entry ''A'' ''1-1'' ''3:00'' [artist_X]])))
       = Some ''Disc One''"
proof -
  have e: "track_entries two_disc_release =
       [mk_entry ''Disc One'' [] [] [artist_X], mk_entry ''A'' ''1-1'' ''3:00'' [artist_X]]
       @ mk_entry ''B'' ''2-1'' ''4:00'' [artist_X] # []"
    by (simp add: two_disc_release_def track_entries_def mk_release_def mk_entry_def)
  have n: "\<not> is_subtitle (mk_entry ''B'' ''2-1'' ''4:00'' [artist_X])"
    by (simp add: is_subtitle_def mk_entry_def)
  from discs_and_tracks_discsubtitle [OF two_disc_release_tracks e n] two_disc_release_tracks e n
  show ?thesis by (simp add: is_subtitle_def mk_entry_def)
qed

text \<open>
  C8 as the spec states it fails at the same release: the track \<^verbatim>\<open>B\<close> is on disc 2,
  the track before it on disc 1, and \<^verbatim>\<open>B\<close> still carries the subtitle \<^verbatim>\<open>Disc One\<close>.
  Nothing in the loop clears the subtitle when the disc number changes.
\<close>

theorem discs_and_tracks_discsubtitle_counterexample:
  "discs_and_tracks two_disc_release =
     Inr [\<lparr>position = 2, tracknumber = 1, discnumber = 1, discsubtitle = Some ''Disc One'',
           sortartist = ''X'', artist = [''X''], title = ''A''\<rparr>,
          \<lparr>position = 3, tracknumber = 1, discnumber = 2, discsubtitle = Some ''Disc One'',
           sortartist = ''X'', artist = [''X''], title = ''B''\<rparr>]"
  by (simp add: two_disc_release_def run_defs)

lemma emitted_discnumber_single:
  assumes "list_all2 (emitted r) ts ps" "disctotal r = Inr dt" "dt \<le> 1"
  shows "\<forall>x\<in>set ts. discnumber x = 1"
  using assms
  by (induction rule: list_all2_induct)
     (auto simp: emitted_def numbering_def split: sum.splits)

lemma emitted_discnumber_multi:
  assumes "list_all2 (emitted r) ts ps" "disctotal r = Inr dt" "1 < dt"
  shows "list_all2
           (\<lambda>x t. py_int (pos_discnumber (disc_and_track_no (t_position t))) = Inr (discnumber x))
           ts (map snd ps)"
  using assms
  by (induction rule: list_all2_induct)
     (auto simp: emitted_def numbering_def Let_def split: sum.splits)

text \<open>
  C10, as the code has it. The disc total is whatever integer the quantity of the
  first format parses to. Whenever \<^verbatim>\<open>discs_and_tracks\<close> returns: with a disc total of
  at most 1 every track has the disc number 1; with a disc total above 1 the disc
  number of a track is the integer value of the disc-number substring of its position
  token, which nothing compares with the disc total.
\<close>

theorem discs_and_tracks_discnumber:
  assumes "discs_and_tracks r = Inr ts" "disctotal r = Inr dt"
  shows "(dt \<le> 1 \<longrightarrow> (\<forall>x\<in>set ts. discnumber x = 1))
     \<and> (1 < dt \<longrightarrow>
          list_all2
            (\<lambda>x t. py_int (pos_discnumber (disc_and_track_no (t_position t))) = Inr (discnumber x))
            ts (filter (\<lambda>t. \<not> is_subtitle t) (track_entries r)))"
proof (intro conjI impI)
  assume "dt \<le> 1"
  with discs_and_tracks_emits [OF assms(1)] assms(2)
  show "\<forall>x\<in>set ts. discnumber x = 1" by (rule emitted_discnumber_single)
next
  assume "1 < dt"
  from emitted_discnumber_multi [OF discs_and_tracks_emits [OF assms(1)] assms(2) this]
    filter_snd_enumerate [of "\<lambda>t. \<not> is_subtitle t" 0 "track_entries r"]
  show "list_all2
          (\<lambda>x t. py_int (pos_discnumber (disc_and_track_no (t_position t))) = Inr (discnumber x))
          ts (filter (\<lambda>t. \<not> is_subtitle t) (track_entries r))"
    by simp
qed

text \<open>
  C10 at a release with the disc total 1 (both tracks on disc 1) and at a release with
  the disc total 2 (disc numbers 1, 1, 2, read from the tokens).
\<close>

theorem discs_and_tracks_discnumber_witness:
  "disctotal subtitle_release = Inr 1 \<and> (1::int) \<le> 1
   \<and> discs_and_tracks subtitle_release =
     Inr [\<lparr>position = 2, tracknumber = 1, discnumber = 1, discsubtitle = Some ''Disc One'',
           sortartist = ''X'', artist = [''X''], title = ''A''\<rparr>,
          \<lparr>position = 3, tracknumber = 2, discnumber = 1, discsubtitle = Some ''Disc One'',
           sortartist = ''X'', artist = [''X''], title = ''B''\<rparr>]
   \<and> disctotal plain_release = Inr 2 \<and> (1::int) < 2
   \<and> discs_and_tracks plain_release =
     Inr [\<lparr>position = 1, tracknumber = 1, discnumber = 1, discsubtitle = None,
           sortartist = ''X'', artist = [''X''], title = ''A''\<rparr>,
          \<lparr>position = 2, tracknumber = 2, discnumber = 1, discsubtitle = None,
           sortartist = ''X'', artist = [''X''], title = ''B''\<rparr>,
          \<lparr>position = 3, tracknumber = 1, discnumber = 2, discsubtitle = None,
           sortartist = ''X'', artist = [''X''], title = ''C''\<rparr>]
   \<and> map (\<lambda>t. py_int (pos_discnumber (disc_and_track_no (t_position t))))
         (filter (\<lambda>t. \<not> is_subtitle t) (track_entries plain_release))
       = [Inr 1, Inr 1, Inr 2]"
proof -
  have a: "disctotal subtitle_release = Inr 1"
    by (simp add: subtitle_release_def run_defs)
  have b: "disctotal plain_release = Inr 2"
    by (simp add: plain_release_def run_defs)
  have c: "map (\<lambda>t. py_int (pos_discnumber (disc_and_track_no (t_position t))))
         (filter (\<lambda>t. \<not> is_subtitle t) (track_entries plain_release))
       = [Inr 1, Inr 1, Inr 2]"
    by (simp add: plain_release_def run_defs)
  from discs_and_tracks_discnumber [OF subtitle_release_tracks a]
    discs_and_tracks_discnumber [OF plain_release_tracks b]
    a b c subtitle_release_tracks plain_release_tracks
  show ?thesis by simp
qed

text \<open>
  C10 as the spec states it fails twice: the quantity \<^verbatim>\<open>0\<close> gives the disc total 0, with
  a track on disc 1; the token \<^verbatim>\<open>5-1\<close> on a release with the disc total 2 gives a track
  on disc 5.
\<close>

theorem discs_and_tracks_discnumber_counterexample:
  "disctotal zero_qty_release = Inr 0
   \<and> discs_and_tracks zero_qty_release =
     Inr [\<lparr>position = 1, tracknumber = 1, discnumber = 1, discsubtitle = None,
           sortartist = ''X'', artist = [''X''], title = ''A''\<rparr>]
   \<and> disctotal disc_five_release = Inr 2
   \<and> discs_and_tracks disc_five_release =
     Inr [\<lparr>position = 1, tracknumber = 1, discnumber = 5, discsubtitle = None,
           sortartist = ''X'', artist = [''X''], title = ''A''\<rparr>]"
  by (simp add: zero_qty_release_def disc_five_release_def run_defs)

subsection \<open>The property \<^verbatim>\<open>tracks\<close>\<close>

lemma tracks_loop_discs_unset:
  "fst (tracks_loop tc r es ds acc None) = None"
  by (induction es arbitrary: ds acc)
     (auto split: sum.splits prod.splits)

lemma tracks_loop_raises:
  "\<exists>t\<in>set (map snd es). \<not> is_subtitle t \<Longrightarrow> \<exists>e. snd (tracks_loop tc r es ds acc None) = Inl e"
proof (induction es arbitrary: ds acc)
  case Nil
  then show ?case by simp
next
  case (Cons p rest)
  obtain i t where p: "p = (i, t)" by (cases p)
  show ?case
  proof (cases "is_subtitle t")
    case True
    with Cons.prems p have "\<exists>t\<in>set (map snd rest). \<not> is_subtitle t" by auto
    from Cons.IH [OF this] True p show ?thesis
      by (auto split: sum.splits prod.splits)
  next
    case False
    with p show ?thesis by (auto split: sum.splits prod.splits)
  qed
qed

lemma tracks_loop_unbound:
  "es \<noteq> [] \<Longrightarrow>
   snd (tracks_loop (Inl NameError) r es ds acc discs) = Inl NameError
   \<or> snd (tracks_loop (Inl NameError) r es ds acc discs) = Inl AttributeError"
proof (cases es)
  case Nil
  assume "es \<noteq> []"
  with Nil show ?thesis by simp
next
  case (Cons p rest)
  obtain i t where p: "p = (i, t)" by (cases p)
  show ?thesis unfolding Cons p
    by (auto simp: track_artist_def split: sum.splits prod.splits list.splits)
qed

lemma tracks_snd:
  "snd (tracks tc (init r)) =
     snd (tracks_loop tc r (enumerate 0 (track_entries r)) None [] None)"
  by (simp add: tracks_def init_def case_prod_unfold Let_def)

lemma tracks_fst:
  "self_discs (fst (tracks tc (init r))) =
     fst (tracks_loop tc r (enumerate 0 (track_entries r)) None [] None)"
  by (simp add: tracks_def init_def case_prod_unfold Let_def)

text \<open>
  C2, as the code has it. On a freshly constructed object, for a release with a
  "Track" entry that is no subtitle entry, \<^verbatim>\<open>tracks\<close> raises, whatever \<^verbatim>\<open>TrackContainer\<close>
  is bound to; \<^verbatim>\<open>self.discs\<close> is still unset afterwards, so \<^verbatim>\<open>tracktotal_on_disc\<close>
  raises AttributeError for every disc number. The exception of \<^verbatim>\<open>tracks\<close> need not
  be an AttributeError from the store into \<^verbatim>\<open>self.discs\<close>: in the module as it stands
  \<^verbatim>\<open>TrackContainer\<close> is unbound, and the first "Track" entry raises NameError, or
  AttributeError from the handler that reads \<^verbatim>\<open>self.artist\<close>.
\<close>

theorem tracks_raises:
  assumes "t \<in> set (tracklist r)" "t_type t = ''Track''" "\<not> is_subtitle t"
  shows "(\<exists>e. snd (tracks TrackContainer (init r)) = Inl e)
     \<and> self_discs (fst (tracks TrackContainer (init r))) = None
     \<and> tracktotal_on_disc (fst (tracks TrackContainer (init r))) dn = Inl AttributeError
     \<and> (snd (tracks (Inl NameError) (init r)) = Inl NameError
        \<or> snd (tracks (Inl NameError) (init r)) = Inl AttributeError)"
proof -
  from assms(1,2) have m: "t \<in> set (track_entries r)" by (simp add: track_entries_def)
  with assms(3) have ex: "\<exists>t\<in>set (map snd (enumerate 0 (track_entries r))). \<not> is_subtitle t"
    by auto
  from m have ne: "enumerate 0 (track_entries r) \<noteq> []" by (auto simp: enumerate_eq_zip)
  have d: "self_discs (fst (tracks TrackContainer (init r))) = None"
    by (simp only: tracks_fst tracks_loop_discs_unset)
  from tracks_loop_raises [OF ex, of TrackContainer r None "[]"]
  have e: "\<exists>e. snd (tracks TrackContainer (init r)) = Inl e"
    by (simp only: tracks_snd)
  from tracks_loop_unbound [OF ne, of r None "[]" None]
  have u: "snd (tracks (Inl NameError) (init r)) = Inl NameError
        \<or> snd (tracks (Inl NameError) (init r)) = Inl AttributeError"
    by (simp only: tracks_snd)
  from d have "tracktotal_on_disc (fst (tracks TrackContainer (init r))) dn = Inl AttributeError"
    by (simp add: tracktotal_on_disc_def)
  with d e u show ?thesis by simp
qed

text \<open>C2 at a single-disc release with the one track \<^verbatim>\<open>A1\<close>.\<close>

theorem tracks_raises_witness:
  "mk_entry ''A'' ''A1'' ''3:00'' [artist_X] \<in> set (tracklist vinyl_release)
   \<and> t_type (mk_entry ''A'' ''A1'' ''3:00'' [artist_X]) = ''Track''
   \<and> \<not> is_subtitle (mk_entry ''A'' ''A1'' ''3:00'' [artist_X])
   \<and> self_discs (fst (tracks (Inr empty_container) (init vinyl_release))) = None
   \<and> tracktotal_on_disc (fst (tracks (Inr empty_container) (init vinyl_release))) 1
       = Inl AttributeError"
proof -
  have a: "mk_entry ''A'' ''A1'' ''3:00'' [artist_X] \<in> set (tracklist vinyl_release)"
    by (simp add: vinyl_release_def mk_release_def)
  have b: "t_type (mk_entry ''A'' ''A1'' ''3:00'' [artist_X]) = ''Track''"
    by (simp add: mk_entry_def)
  have c: "\<not> is_subtitle (mk_entry ''A'' ''A1'' ''3:00'' [artist_X])"
    by (simp add: mk_entry_def is_subtitle_def)
  from tracks_raises [OF a b c, of "Inr empty_container" 1] a b c show ?thesis by simp
qed

text \<open>
  C2 as the spec states it fails at that release: the exception is NameError in the
  module as it stands, and ValueError from \<^verbatim>\<open>int("A1")\<close> where the class is supplied;
  the store into \<^verbatim>\<open>self.discs\<close> is not reached in either case.
\<close>

theorem tracks_raises_counterexample:
  "snd (tracks (Inl NameError) (init vinyl_release)) = Inl NameError
   \<and> snd (tracks (Inr empty_container) (init vinyl_release)) = Inl ValueError"
  by (simp add: tracks_def init_def vinyl_release_def run_defs)

text \<open>
  The store itself works on an object that has the attribute: with \<^verbatim>\<open>self.discs\<close> an
  empty dict and the class supplied, \<^verbatim>\<open>tracks\<close> returns the three tracks of the
  two-disc release and leaves the last track number of each disc in the table.
\<close>

lemma tracks_populates_discs:
  "snd (tracks (Inr empty_container) \<lparr>self_release = plain_release, self_discs = Some Map.empty\<rparr>) =
     Inr [\<lparr>position = 1, tracknumber = 1, discnumber = 1, discsubtitle = None,
           sortartist = ''X'', artist = [''X''], title = ''A''\<rparr>,
          \<lparr>position = 2, tracknumber = 2, discnumber = 1, discsubtitle = None,
           sortartist = ''X'', artist = [''X''], title = ''B''\<rparr>,
          \<lparr>position = 3, tracknumber = 1, discnumber = 2, discsubtitle = None,
           sortartist = ''X'', artist = [''X''], title = ''C''\<rparr>]
   \<and> tracktotal_on_disc
         (fst (tracks (Inr empty_container) \<lparr>self_release = plain_release, self_discs = Some Map.empty\<rparr>)) 1
       = Inr 2
   \<and> tracktotal_on_disc
         (fst (tracks (Inr empty_container) \<lparr>self_release = plain_release, self_discs = Some Map.empty\<rparr>)) 2
       = Inr 1"
  by (simp add: tracks_def plain_release_def run_defs empty_container_def tracktotal_on_disc_def)

end
